theory Spec2Isabelle
  imports Main "HOL-Library.Multiset"
begin

section \<open>Values, exceptions and results\<close>

text \<open>
  A request arrives as the value that \<open>json.loads\<close> builds: \<open>None\<close>, a bool, an int, a
  float, a str, a list or a dict with str keys. A Python str is kept as its UTF-8 bytes, which
  preserves equality, concatenation and being ASCII, the only string operations of the
  dispatcher. A dict is an association list read with \<open>map_of\<close>. A float is a mantissa and a
  decimal exponent; no operation of the dispatcher looks inside one.
\<close>

datatype json =
    JNull
  | JBool bool
  | JInt int
  | JFloat int int
  | JStr string
  | JArr "json list"
  | JObj "(string \<times> json) list"

text \<open>
  Exceptions are values. Each constructor is a class that the dispatcher's handlers tell
  apart or that the interpreter raises on the operations used; \<open>OtherException\<close> stands for
  every other subclass of \<open>Exception\<close> (an \<open>OSError\<close> of the image library, a
  \<open>RuntimeError\<close> of the engine, a connection error of the broker client). \<open>binascii.Error\<close>
  and \<open>JSONDecodeError\<close> are subclasses of \<open>ValueError\<close>, not the converse, so a handler for
  one of them does not catch a plain \<open>ValueError\<close>. The argument is \<open>str(e)\<close>, except for
  \<open>KeyError\<close>, which carries the missing key.
\<close>

datatype exn =
    KeyError string
  | TypeError string
  | AttributeError string
  | ValueError string
  | BinasciiError string
  | JSONDecodeError string
  | OtherException string

definition repr_str :: "string \<Rightarrow> string" where
  \<comment> \<open>\<open>repr\<close> of a str without quotes, backslashes or control characters, as the keys here are\<close>
  "repr_str k = [CHR 0x27] @ k @ [CHR 0x27]"

fun str_exn :: "exn \<Rightarrow> string" where
  "str_exn (KeyError k) = repr_str k"
| "str_exn (TypeError m) = m"
| "str_exn (AttributeError m) = m"
| "str_exn (ValueError m) = m"
| "str_exn (BinasciiError m) = m"
| "str_exn (JSONDecodeError m) = m"
| "str_exn (OtherException m) = m"

text \<open>
  The operations on which the interpreter or the \<open>base64\<close> module raises. The wording of the
  message is theirs and differs between Python versions, so it is a parameter (\<open>errtext\<close>).
\<close>

datatype fault =
    NotSubscriptable json
  | NoAttribute json string
  | CannotConcat json
  | NotBytesLike json
  | NonAscii

text \<open>The reply: \<open>{'code': .., 'msg': .., 'result': ..}\<close>; error replies have no \<open>'result'\<close>.\<close>

record api_result =
  code :: int
  msg :: string
  result :: "json option"

datatype level = Info | Error

text \<open>
  What the process does to the outside, in order. \<open>Log\<close> keeps the level and the text of the
  record (for records formatted from request values and clock readings, the template).
  \<open>EngineCall\<close> is a call of \<open>vlchat_model.chat_w_image\<close>. \<open>Published\<close> is a call of
  \<open>helper.redis_publish\<close> that returned, \<open>PublishFailed\<close> one that raised. \<open>Subscribe\<close>,
  \<open>NewExecutor\<close>, \<open>Submit\<close> and \<open>Sleep\<close> are the listener's calls of
  \<open>helper.redis_subscribe\<close>, \<open>ThreadPoolExecutor\<close>, \<open>executor.submit\<close> and \<open>time.sleep\<close>.
\<close>

datatype 'img event =
    Log level string
  | EngineCall json 'img
  | Published json api_result
  | PublishFailed json api_result exn
  | Subscribe
  | NewExecutor
  | Submit json
  | Sleep nat

section \<open>The collaborators\<close>

text \<open>
  Code outside the three source files, taken as parameters:
  \<^item> \<open>errtext\<close>: the message of an exception raised by the interpreter or by \<open>base64\<close>;
  \<^item> \<open>a2b_base64\<close>: \<open>binascii.a2b_base64\<close> on ASCII text, the decoded bytes or the exception;
  \<^item> \<open>image_open\<close>: \<open>Image.open(BytesIO(data)).convert('RGB')\<close>;
  \<^item> \<open>chat_w_image\<close>: the engine, \<open>vlchat_model.chat_w_image(question, image)\<close>;
  \<^item> \<open>redis_publish\<close>: \<open>helper.redis_publish(channel, result)\<close>, \<open>None\<close> when it returns;
  \<^item> \<open>json_loads\<close>: \<open>json.loads(data.decode('utf-8'))\<close> on the bytes of a broker message.
\<close>

record 'img env =
  errtext :: "fault \<Rightarrow> string"
  a2b_base64 :: "string \<Rightarrow> exn + string"
  image_open :: "string \<Rightarrow> exn + 'img"
  chat_w_image :: "json \<Rightarrow> 'img \<Rightarrow> exn + json"
  redis_publish :: "json \<Rightarrow> api_result \<Rightarrow> exn option"
  json_loads :: "string \<Rightarrow> exn + json"

section \<open>Interpreter operations on request values\<close>

definition subscript :: "'img env \<Rightarrow> json \<Rightarrow> string \<Rightarrow> exn + json" where
  \<comment> \<open>\<open>v[k]\<close> with a str key: only a dict has it; a missing key is a \<open>KeyError\<close>\<close>
  "subscript env v k =
     (case v of
        JObj kvs \<Rightarrow> (case map_of kvs k of Some x \<Rightarrow> Inr x | None \<Rightarrow> Inl (KeyError k))
      | _ \<Rightarrow> Inl (TypeError (errtext env (NotSubscriptable v))))"

definition get_method :: "'img env \<Rightarrow> json \<Rightarrow> string \<Rightarrow> json \<Rightarrow> exn + json" where
  \<comment> \<open>\<open>v.get(k, d)\<close>: of the values here only a dict has the method\<close>
  "get_method env v k d =
     (case v of
        JObj kvs \<Rightarrow> (case map_of kvs k of Some x \<Rightarrow> Inr x | None \<Rightarrow> Inr d)
      | _ \<Rightarrow> Inl (AttributeError (errtext env (NoAttribute v ''get''))))"

definition concat_str :: "'img env \<Rightarrow> string \<Rightarrow> json \<Rightarrow> exn + string" where
  \<comment> \<open>\<open>'literal' + v\<close>: a str only concatenates with a str\<close>
  "concat_str env s v =
     (case v of
        JStr t \<Rightarrow> Inr (s @ t)
      | _ \<Rightarrow> Inl (TypeError (errtext env (CannotConcat v))))"

definition is_ascii :: "string \<Rightarrow> bool" where
  "is_ascii s = list_all (\<lambda>c. (of_char c :: nat) < 128) s"

section \<open>vlchat: decoding the image\<close>

definition b64decode :: "'img env \<Rightarrow> json \<Rightarrow> exn + string" where
  \<comment> \<open>\<open>base64.b64decode(s)\<close>: a str must be ASCII (else \<open>ValueError\<close>); a value that is
      neither str nor bytes-like is a \<open>TypeError\<close>; then \<open>binascii.a2b_base64\<close>\<close>
  "b64decode env s =
     (case s of
        JStr t \<Rightarrow> if is_ascii t then a2b_base64 env t
                  else Inl (ValueError (errtext env NonAscii))
      | _ \<Rightarrow> Inl (TypeError (errtext env (NotBytesLike s))))"

definition load_image_b64 :: "'img env \<Rightarrow> json \<Rightarrow> exn + 'img" where
  "load_image_b64 env b64_data =
     (case b64decode env b64_data of
        Inl e \<Rightarrow> Inl e
      | Inr bytes \<Rightarrow> image_open env bytes)"

section \<open>dispatcher: process_api\<close>

definition zh_unknown :: string where
  "zh_unknown = [CHR 0xE6, CHR 0x9C, CHR 0xAA, CHR 0xE7, CHR 0x9F, CHR 0xA5]"

definition zh_call :: string where
  "zh_call = [CHR 0xE8, CHR 0xB0, CHR 0x83, CHR 0xE7, CHR 0x94, CHR 0xA8]"

definition zh_encoding :: string where
  "zh_encoding = [CHR 0xE7, CHR 0xBC, CHR 0x96, CHR 0xE7, CHR 0xA0, CHR 0x81]"

definition zh_conversion :: string where
  "zh_conversion = [CHR 0xE8, CHR 0xBD, CHR 0xAC, CHR 0xE6, CHR 0x8D, CHR 0xA2]"

definition zh_exception :: string where
  "zh_exception = [CHR 0xE5, CHR 0xBC, CHR 0x82, CHR 0xE5, CHR 0xB8, CHR 0xB8]"

definition zh_error :: string where
  "zh_error = [CHR 0xE9, CHR 0x94, CHR 0x99, CHR 0xE8, CHR 0xAF, CHR 0xAF]"

definition chat_api :: string where
  "chat_api = ''/api/internvl/chat''"

definition msg_unknown_api :: string where
  "msg_unknown_api = zh_unknown @ '' api '' @ zh_call"

definition msg_base64 :: string where
  "msg_base64 = ''base64'' @ zh_encoding @ zh_exception @ '': ''"

definition msg_json :: string where
  "msg_json = ''json'' @ zh_encoding @ zh_exception @ '': ''"

definition msg_unknown_error :: string where
  "msg_unknown_error = zh_unknown @ zh_error @ '': ''"

definition success_result :: "json \<Rightarrow> api_result" where
  "success_result r1 = \<lparr>code = 0, msg = ''success'', result = Some r1\<rparr>"

definition error_result :: "int \<Rightarrow> string \<Rightarrow> api_result" where
  "error_result c m = \<lparr>code = c, msg = m, result = None\<rparr>"

text \<open>
  The body of the \<open>try\<close>: the events so far and either the exception that leaves the body or
  the result it built. The image is decoded before \<open>request['params']['text']\<close> is read, and
  \<open>'Unknown api: ' + request['api']\<close> is evaluated before the record is logged.
\<close>

definition process_api_try :: "'img env \<Rightarrow> json \<Rightarrow> 'img event list \<times> (exn + api_result)" where
  "process_api_try env request =
     (case subscript env request ''api'' of
        Inl e \<Rightarrow> ([], Inl e)
      | Inr api \<Rightarrow>
          if api = JStr chat_api then
            (case subscript env request ''params'' of
               Inl e \<Rightarrow> ([], Inl e)
             | Inr params \<Rightarrow>
            (case subscript env params ''image'' of
               Inl e \<Rightarrow> ([], Inl e)
             | Inr image_b64 \<Rightarrow>
            (case load_image_b64 env image_b64 of
               Inl e \<Rightarrow> ([], Inl e)
             | Inr img \<Rightarrow>
            (case subscript env params ''text'' of
               Inl e \<Rightarrow> ([], Inl e)
             | Inr question \<Rightarrow>
            (case chat_w_image env question img of
               Inl e \<Rightarrow> ([EngineCall question img], Inl e)
             | Inr r1 \<Rightarrow> ([EngineCall question img], Inr (success_result r1)))))))
          else
            (case concat_str env ''Unknown api: '' api of
               Inl e \<Rightarrow> ([], Inl e)
             | Inr line \<Rightarrow> ([Log Error line], Inr (error_result 9900 msg_unknown_api))))"

text \<open>
  The \<open>except\<close> clauses, in the order of the source: the text logged as an error and
  the result built. The last clause catches every other exception.
\<close>

definition process_api_except :: "exn \<Rightarrow> string \<times> api_result" where
  "process_api_except e =
     (case e of
        BinasciiError m \<Rightarrow>
          (zh_encoding @ zh_conversion @ zh_exception @ '': '' @ str_exn e,
           error_result 9901 (msg_base64 @ str_exn e))
      | JSONDecodeError m \<Rightarrow>
          (''json'' @ zh_conversion @ zh_exception @ '': '' @ str_exn e,
           error_result 9902 (msg_json @ str_exn e))
      | _ \<Rightarrow>
          (zh_unknown @ zh_exception @ '': '' @ str_exn e,
           error_result 9998 (msg_unknown_error @ str_exn e)))"

definition process_api :: "'img env \<Rightarrow> json \<Rightarrow> json \<Rightarrow> 'img event list \<times> api_result" where
  "process_api env request_id request_msg =
     (case process_api_try env request_msg of
        (evs, Inr res) \<Rightarrow> (evs, res)
      | (evs, Inl e) \<Rightarrow> (evs @ [Log Error (fst (process_api_except e))], snd (process_api_except e)))"

section \<open>dispatcher: process_thread\<close>

text \<open>
  The body of the \<open>try\<close> of \<open>process_thread\<close>: the events and the exception that leaves it,
  if any. The arguments of the first log record are evaluated first
  (\<open>msg_body['request_id']\<close>, then \<open>msg_body['data'].get('api', 'Unknown')\<close>); the last log
  record reads \<open>msg_body['data']['api']\<close> after the publication.
\<close>

definition process_thread_try :: "'img env \<Rightarrow> json \<Rightarrow> 'img event list \<times> exn option" where
  "process_thread_try env msg_body =
     (case subscript env msg_body ''request_id'' of
        Inl e \<Rightarrow> ([], Some e)
      | Inr request_id \<Rightarrow>
     (case subscript env msg_body ''data'' of
        Inl e \<Rightarrow> ([], Some e)
      | Inr data \<Rightarrow>
     (case get_method env data ''api'' (JStr ''Unknown'') of
        Inl e \<Rightarrow> ([], Some e)
      | Inr _ \<Rightarrow>
          (let (evs, api_result) = process_api env request_id data;
               before = [Log Info ''{} Calling api: {}''] @ evs
                        @ [Log Info ''1 ===> [Time taken: {!s}]'']
           in case redis_publish env request_id api_result of
                Some e \<Rightarrow> (before @ [PublishFailed request_id api_result e], Some e)
              | None \<Rightarrow>
                  (case subscript env data ''api'' of
                     Inl e \<Rightarrow> (before @ [Published request_id api_result], Some e)
                   | Inr _ \<Rightarrow>
                       (before @ [Published request_id api_result,
                                  Log Info ''{} {} [Time taken: {!s}]''], None))))))"

definition process_thread :: "'img env \<Rightarrow> json \<Rightarrow> 'img event list" where
  "process_thread env msg_body =
     (case process_thread_try env msg_body of
        (evs, None) \<Rightarrow> evs
      | (evs, Some e) \<Rightarrow>
          evs @ [Log Error (''process_thread'' @ zh_exception @ '': '' @ str_exn e)])"

section \<open>Reading a trace\<close>

fun published :: "'img event list \<Rightarrow> (json \<times> api_result) list" where
  "published [] = []"
| "published (Published ch r # evs) = (ch, r) # published evs"
| "published (_ # evs) = published evs"

fun publish_calls :: "'img event list \<Rightarrow> (json \<times> api_result) list" where
  "publish_calls [] = []"
| "publish_calls (Published ch r # evs) = (ch, r) # publish_calls evs"
| "publish_calls (PublishFailed ch r e # evs) = (ch, r) # publish_calls evs"
| "publish_calls (_ # evs) = publish_calls evs"

fun engine_calls :: "'img event list \<Rightarrow> (json \<times> 'img) list" where
  "engine_calls [] = []"
| "engine_calls (EngineCall q i # evs) = (q, i) # engine_calls evs"
| "engine_calls (_ # evs) = engine_calls evs"

section \<open>dispatcher: the listener loop\<close>

text \<open>
  A broker event as \<open>ps.listen()\<close> yields it: \<open>item['type']\<close> and the bytes of
  \<open>item['data']\<close>.
\<close>

record item =
  item_type :: string
  item_data :: string

text \<open>
  How an iteration over \<open>ps.listen()\<close> stops: an exception, the end of the generator, or
  not at all (the listener stays blocked on the broker).
\<close>

datatype ending = Raises exn | Ends | Blocks

text \<open>
  What the broker does during one pass of the \<open>while 1\<close> loop: \<open>helper.redis_subscribe\<close>
  raises, or it returns a subscription that yields items and then stops as above.
\<close>

datatype session = SubscribeRaises exn | Subscribed "item list" ending

definition received :: string where
  "received = ''reveived: type=%s running=%d pending=%d''"

text \<open>
  The \<open>for item in ps.listen()\<close> loop: the events and how the loop is left. A payload that
  \<open>json.loads\<close> rejects raises out of the loop, before \<open>executor.submit\<close>.
\<close>

fun listen_loop :: "'img env \<Rightarrow> item list \<Rightarrow> ending \<Rightarrow> 'img event list \<times> ending" where
  "listen_loop env [] fin = ([], fin)"
| "listen_loop env (it # its) fin =
     (if item_type it = ''message'' then
        (case json_loads env (item_data it) of
           Inl e \<Rightarrow> ([Log Info received], Raises e)
         | Inr msg_body \<Rightarrow>
             (let (evs, out) = listen_loop env its fin
              in ([Log Info received, Submit msg_body, Log Info ''Thread future: ''] @ evs, out)))
      else
        (let (evs, out) = listen_loop env its fin
         in (Log Info received # evs, out)))"

text \<open>
  The \<open>while 1\<close> loop over what the broker does, one session per pass. The loop has no
  \<open>break\<close> and no \<open>return\<close>: the trace only stops where a session blocks or where the
  observed sessions end.
\<close>

fun listener :: "'img env \<Rightarrow> session list \<Rightarrow> 'img event list" where
  "listener env [] = []"
| "listener env (SubscribeRaises e # ss) =
     [Subscribe, Log Info (''Exception: '' @ str_exn e), Sleep 20] @ listener env ss"
| "listener env (Subscribed its fin # ss) =
     (case listen_loop env its fin of
        (evs, Raises e) \<Rightarrow>
          [Subscribe, NewExecutor] @ evs
          @ [Log Info (''Exception: '' @ str_exn e), Sleep 20] @ listener env ss
      | (evs, Ends) \<Rightarrow> [Subscribe, NewExecutor] @ evs @ listener env ss
      | (evs, Blocks) \<Rightarrow> [Subscribe, NewExecutor] @ evs)"

fun session_raises :: "'img env \<Rightarrow> session \<Rightarrow> exn option" where
  "session_raises env (SubscribeRaises e) = Some e"
| "session_raises env (Subscribed its fin) =
     (case snd (listen_loop env its fin) of Raises e \<Rightarrow> Some e | _ \<Rightarrow> None)"

fun submitted :: "'img event list \<Rightarrow> json list" where
  "submitted [] = []"
| "submitted (Submit b # evs) = b # submitted evs"
| "submitted (_ # evs) = submitted evs"

fun sleeps :: "'img event list \<Rightarrow> nat list" where
  "sleeps [] = []"
| "sleeps (Sleep n # evs) = n # sleeps evs"
| "sleeps (_ # evs) = sleeps evs"

section \<open>Request envelopes\<close>

text \<open>
  The work channel message \<open>{"request_id": rid, "data": {"api": api, "params": params}}\<close>,
  other keys allowed.
\<close>

fun field :: "json \<Rightarrow> string \<Rightarrow> json option" where
  "field (JObj kvs) k = map_of kvs k"
| "field _ k = None"

definition is_envelope :: "json \<Rightarrow> string \<Rightarrow> string \<Rightarrow> json \<Rightarrow> bool" where
  "is_envelope msg_body rid api params =
     (field msg_body ''request_id'' = Some (JStr rid) \<and>
      (case field msg_body ''data'' of
         Some (JObj d) \<Rightarrow> map_of d ''api'' = Some (JStr api) \<and> map_of d ''params'' = Some params
       | _ \<Rightarrow> False))"

definition envelope :: "string \<Rightarrow> string \<Rightarrow> json \<Rightarrow> json \<Rightarrow> json" where
  "envelope rid api question image_b64 =
     JObj [(''request_id'', JStr rid),
           (''data'', JObj [(''api'', JStr api),
                            (''params'', JObj [(''text'', question), (''image'', image_b64)])])]"

section \<open>Stub collaborators\<close>

text \<open>
  A test double of the collaborators: an engine that answers \<open>a cat\<close>, an image library that
  accepts every byte string, a broker that accepts every publication, and the two decoders
  on the few inputs used below, with the results Python gives there.
\<close>

fun stub_errtext :: "fault \<Rightarrow> string" where
  "stub_errtext (NotSubscriptable v) = ''object is not subscriptable''"
| "stub_errtext (NoAttribute v a) = ''object has no attribute '' @ a"
| "stub_errtext (CannotConcat v) = ''can only concatenate str to str''"
| "stub_errtext (NotBytesLike v) = ''argument should be a bytes-like object or ASCII string''"
| "stub_errtext NonAscii = ''string argument should contain only ASCII characters''"

definition stub_a2b_base64 :: "string \<Rightarrow> exn + string" where
  "stub_a2b_base64 t =
     (if t = ''aGVsbG8='' then Inr ''hello''
      else if t = ''not-base64!!'' then
        Inl (BinasciiError (''Invalid base64-encoded string: number of data characters (9) ''
                            @ ''cannot be 1 more than a multiple of 4''))
      else Inl (BinasciiError ''Incorrect padding''))"

definition stub_json_loads :: "string \<Rightarrow> exn + json" where
  "stub_json_loads b =
     (if b = ''{}'' then Inr (JObj [])
      else if b = ''null'' then Inr JNull
      else Inl (JSONDecodeError ''Expecting value: line 1 column 1 (char 0)''))"

definition stub_env :: "string env" where
  "stub_env =
     \<lparr>errtext = stub_errtext,
      a2b_base64 = stub_a2b_base64,
      image_open = Inr,
      chat_w_image = (\<lambda>question img. Inr (JStr ''a cat'')),
      redis_publish = (\<lambda>channel res. None),
      json_loads = stub_json_loads\<rparr>"

definition connection_refused :: exn where
  "connection_refused = OtherException ''Error 111 connecting to 127.0.0.1:7480. Connection refused.''"

definition broker_down_env :: "string env" where
  "broker_down_env = stub_env\<lparr>redis_publish := (\<lambda>channel res. Some connection_refused)\<rparr>"

text \<open>The str \<open>e\<close> with an acute accent (U+00E9), which is not ASCII.\<close>

definition e_acute :: string where
  "e_acute = [CHR 0xC3, CHR 0xA9]"

text \<open>A valid image: a PNG file of one red pixel (69 bytes) and its base64 text.\<close>

definition png_b64 :: string where
  "png_b64 = ''iVBORw0KGgoAAAANSUhEUgAAAAEAAAABCAIAAACQd1PeAAAADElEQVR42mP4z8AAAAMBAQD3''
             @ ''A0FDAAAAAElFTkSuQmCC''"

definition png_bytes :: string where
  "png_bytes =
     [CHR 0x89, CHR 0x50, CHR 0x4E, CHR 0x47, CHR 0x0D, CHR 0x0A, CHR 0x1A, CHR 0x0A,
      CHR 0x00, CHR 0x00, CHR 0x00, CHR 0x0D, CHR 0x49, CHR 0x48, CHR 0x44, CHR 0x52,
      CHR 0x00, CHR 0x00, CHR 0x00, CHR 0x01, CHR 0x00, CHR 0x00, CHR 0x00, CHR 0x01,
      CHR 0x08, CHR 0x02, CHR 0x00, CHR 0x00, CHR 0x00, CHR 0x90, CHR 0x77, CHR 0x53,
      CHR 0xDE, CHR 0x00, CHR 0x00, CHR 0x00, CHR 0x0C, CHR 0x49, CHR 0x44, CHR 0x41,
      CHR 0x54, CHR 0x78, CHR 0xDA, CHR 0x63, CHR 0xF8, CHR 0xCF, CHR 0xC0, CHR 0x00,
      CHR 0x00, CHR 0x03, CHR 0x01, CHR 0x01, CHR 0x00, CHR 0xF7, CHR 0x03, CHR 0x41,
      CHR 0x43, CHR 0x00, CHR 0x00, CHR 0x00, CHR 0x00, CHR 0x49, CHR 0x45, CHR 0x4E,
      CHR 0x44, CHR 0xAE, CHR 0x42, CHR 0x60, CHR 0x82]"

text \<open>
  Collaborators that know this image only: the decoder gives its bytes, the image library
  opens these bytes and rejects every other byte string, the engine answers \<open>a cat\<close>, and
  the broker refuses the connection at publish time.
\<close>

definition png_broker_down_env :: "string env" where
  "png_broker_down_env =
     \<lparr>errtext = stub_errtext,
      a2b_base64 = (\<lambda>t. if t = png_b64 then Inr png_bytes else stub_a2b_base64 t),
      image_open = (\<lambda>b. if b = png_bytes then Inr b
                         else Inl (OtherException ''cannot identify image file'')),
      chat_w_image = (\<lambda>question img. Inr (JStr ''a cat'')),
      redis_publish = (\<lambda>channel res. Some connection_refused),
      json_loads = stub_json_loads\<rparr>"

section \<open>How a pass of the listener ends\<close>

fun pass_ending :: "'img env \<Rightarrow> session \<Rightarrow> ending" where
  "pass_ending env (SubscribeRaises e) = Raises e"
| "pass_ending env (Subscribed its fin) = snd (listen_loop env its fin)"

fun subscriptions :: "'img event list \<Rightarrow> nat" where
  "subscriptions [] = 0"
| "subscriptions (Subscribe # evs) = Suc (subscriptions evs)"
| "subscriptions (_ # evs) = subscriptions evs"

section \<open>The dispatch pool\<close>

text \<open>
  \<open>settings.MAX_DISPATCHER_WORKERS\<close>, documented there as the greatest number of threads
  of the dispatcher.
\<close>

definition MAX_DISPATCHER_WORKERS :: nat where
  "MAX_DISPATCHER_WORKERS = 1"

text \<open>
  The pool is Python's \<open>ThreadPoolExecutor\<close>, whose code is not in the repository. It is
  modelled after its documentation and section 4.2 of the specification: a pool has a queue
  of pending jobs and at most \<open>max_workers\<close> jobs running; \<open>submit\<close> appends to the queue and
  returns; a free worker takes the oldest pending job and runs it to completion. Nothing
  orders the workers of different pools.

  The listener builds a pool on every pass of its loop (line 96) and never shuts one down,
  so a process has a list of pools; \<open>executor.submit\<close> goes to the one built last. A job is
  the message body handed to \<open>process_thread\<close>.
\<close>

record pool =
  pending :: "json list"
  running :: "json list"

record sched =
  pools :: "pool list"
  started :: "json list"
  finished :: "json list"

definition idle :: pool where
  "idle = \<lparr>pending = [], running = []\<rparr>"

definition boot :: sched where
  "boot = \<lparr>pools = [], started = [], finished = []\<rparr>"

text \<open>
  What happens to the pools: the listener builds one (\<open>Create\<close>) or submits a job to the
  last one (\<open>Enqueue\<close>); a worker of pool \<open>i\<close> takes the oldest pending job (\<open>Start i\<close>) or
  completes a job it runs (\<open>Finish i j\<close>). \<open>exec\<close> is \<open>None\<close> where the action cannot
  happen; \<open>k\<close> is \<open>max_workers\<close>.
\<close>

datatype action = Create | Enqueue json | Start nat | Finish nat json

fun exec :: "nat \<Rightarrow> sched \<Rightarrow> action \<Rightarrow> sched option" where
  "exec k s Create = Some (s\<lparr>pools := pools s @ [idle]\<rparr>)"
| "exec k s (Enqueue j) =
     (if pools s = [] then None
      else Some (s\<lparr>pools := butlast (pools s)
                   @ [(last (pools s))\<lparr>pending := pending (last (pools s)) @ [j]\<rparr>]\<rparr>))"
| "exec k s (Start i) =
     (if i < length (pools s) then
        (case pending (pools s ! i) of
           [] \<Rightarrow> None
         | j # q \<Rightarrow>
             if length (running (pools s ! i)) < k then
               Some (s\<lparr>pools := (pools s)
                         [i := \<lparr>pending = q, running = running (pools s ! i) @ [j]\<rparr>],
                       started := started s @ [j]\<rparr>)
             else None)
      else None)"
| "exec k s (Finish i j) =
     (if i < length (pools s) \<and> j \<in> set (running (pools s ! i)) then
        Some (s\<lparr>pools := (pools s)
                  [i := (pools s ! i)\<lparr>running := remove1 j (running (pools s ! i))\<rparr>],
                finished := finished s @ [j]\<rparr>)
      else None)"

fun run :: "nat \<Rightarrow> sched \<Rightarrow> action list \<Rightarrow> sched option" where
  "run k s [] = Some s"
| "run k s (a # as) = (case exec k s a of None \<Rightarrow> None | Some s' \<Rightarrow> run k s' as)"

text \<open>The listener's part of a run: the pools it builds and the jobs it submits, in order.\<close>

fun listener_actions :: "'img event list \<Rightarrow> action list" where
  "listener_actions [] = []"
| "listener_actions (NewExecutor # evs) = Create # listener_actions evs"
| "listener_actions (Submit b # evs) = Enqueue b # listener_actions evs"
| "listener_actions (_ # evs) = listener_actions evs"

fun by_listener :: "action \<Rightarrow> bool" where
  "by_listener Create = True"
| "by_listener (Enqueue j) = True"
| "by_listener _ = False"

fun enqueued :: "action list \<Rightarrow> json list" where
  "enqueued [] = []"
| "enqueued (Enqueue j # as) = j # enqueued as"
| "enqueued (_ # as) = enqueued as"

definition in_pools :: "sched \<Rightarrow> json list" where
  "in_pools s = concat (map (\<lambda>p. running p @ pending p) (pools s))"

text \<open>
  The text of a work channel message for the chat operation, as a client serialises it, and
  collaborators whose \<open>json.loads\<close> reads the two requests \<open>r1\<close> and \<open>r2\<close>.
\<close>

definition quoted :: "string \<Rightarrow> string" where
  "quoted s = [CHR 0x22] @ s @ [CHR 0x22]"

definition request_text :: "string \<Rightarrow> string" where
  "request_text rid =
     ''{'' @ quoted ''request_id'' @ '': '' @ quoted rid @ '', '' @ quoted ''data'' @ '': {''
     @ quoted ''api'' @ '': '' @ quoted ''/api/internvl/chat'' @ '', '' @ quoted ''params''
     @ '': {'' @ quoted ''text'' @ '': '' @ quoted ''What is this?'' @ '', ''
     @ quoted ''image'' @ '': '' @ quoted ''aGVsbG8='' @ ''}}}''"

definition chat_request :: "string \<Rightarrow> json" where
  "chat_request rid = envelope rid ''/api/internvl/chat'' (JStr ''What is this?'') (JStr ''aGVsbG8='')"

definition queue_env :: "string env" where
  "queue_env = stub_env\<lparr>json_loads :=
     (\<lambda>b. if b = request_text ''r1'' then Inr (chat_request ''r1'')
          else if b = request_text ''r2'' then Inr (chat_request ''r2'')
          else stub_json_loads b)\<rparr>"

definition connection_closed :: exn where
  "connection_closed = OtherException ''Connection closed by server.''"

text \<open>
  A run with one reconnection. The connection closes while the first request is being
  served; the listener sleeps, subscribes again, builds a second pool and submits the
  second request to it. The worker of the second pool serves it while the worker of the
  first pool is still busy, and completes first.
\<close>

definition reconnect_sessions :: "session list" where
  "reconnect_sessions =
     [Subscribed [\<lparr>item_type = ''message'', item_data = request_text ''r1''\<rparr>]
        (Raises connection_closed),
      Subscribed [\<lparr>item_type = ''message'', item_data = request_text ''r2''\<rparr>] Blocks]"

definition reconnect_overlap :: "action list" where
  "reconnect_overlap =
     [Create, Enqueue (chat_request ''r1''), Start 0,
      Create, Enqueue (chat_request ''r2''), Start 1]"

definition reconnect_run :: "action list" where
  "reconnect_run =
     reconnect_overlap @ [Finish 1 (chat_request ''r2''), Finish 0 (chat_request ''r1'')]"

section \<open>Facts about traces\<close>

lemma published_append: "published (xs @ ys) = published xs @ published ys"
  by (induction xs rule: published.induct) simp_all

lemma publish_calls_append: "publish_calls (xs @ ys) = publish_calls xs @ publish_calls ys"
  by (induction xs rule: publish_calls.induct) simp_all

lemma engine_calls_append: "engine_calls (xs @ ys) = engine_calls xs @ engine_calls ys"
  by (induction xs rule: engine_calls.induct) simp_all

lemma sleeps_append: "sleeps (xs @ ys) = sleeps xs @ sleeps ys"
  by (induction xs rule: sleeps.induct) simp_all

lemma submitted_append: "submitted (xs @ ys) = submitted xs @ submitted ys"
  by (induction xs rule: submitted.induct) simp_all

lemma published_sub: "publish_calls evs = [] \<Longrightarrow> published evs = []"
  by (induction evs rule: publish_calls.induct) simp_all

section \<open>Facts about process_api and process_thread\<close>

lemma process_api_try_publish_calls:
  "publish_calls (fst (process_api_try env request)) = []"
  by (simp add: process_api_try_def split: sum.splits)

lemma process_api_publish_calls:
  "publish_calls (fst (process_api env request_id request)) = []"
proof (cases "process_api_try env request")
  case (Pair evs out)
  with process_api_try_publish_calls [of env request] show ?thesis
    by (cases out) (simp_all add: process_api_def publish_calls_append)
qed

lemma process_api_except_code:
  "code (snd (process_api_except e)) =
     (case e of BinasciiError m \<Rightarrow> 9901 | JSONDecodeError m \<Rightarrow> 9902 | _ \<Rightarrow> 9998)"
  by (cases e) (simp_all add: process_api_except_def error_result_def)

lemma process_api_try_code:
  "process_api_try env request = (evs, Inr res) \<Longrightarrow> code res = 0 \<or> code res = 9900"
  by (auto simp: process_api_try_def success_result_def error_result_def
      split: sum.splits if_splits)

lemma process_api_codes:
  "code (snd (process_api env request_id request)) \<in> {0, 9900, 9901, 9902, 9998}"
proof (cases "process_api_try env request")
  case (Pair evs out)
  show ?thesis
  proof (cases out)
    case (Inl e)
    with Pair show ?thesis
      by (cases e) (simp_all add: process_api_def process_api_except_code)
  next
    case (Inr res)
    with Pair process_api_try_code [of env request evs res] show ?thesis
      by (auto simp: process_api_def)
  qed
qed

lemma is_envelopeD:
  assumes "is_envelope msg_body rid api params"
  obtains kvs d where "msg_body = JObj kvs" "map_of kvs ''request_id'' = Some (JStr rid)"
    "map_of kvs ''data'' = Some (JObj d)" "map_of d ''api'' = Some (JStr api)"
    "map_of d ''params'' = Some params"
proof (cases msg_body)
  case (JObj kvs)
  with assms show ?thesis
    by (auto simp: is_envelope_def split: option.splits json.splits intro: that)
qed (use assms in \<open>simp_all add: is_envelope_def\<close>)

lemma process_thread_dict:
  assumes "map_of kvs ''request_id'' = Some rid" "map_of kvs ''data'' = Some (JObj d)"
    and "process_api env rid (JObj d) = (evs, res)"
  shows "process_thread env (JObj kvs) =
     [Log Info ''{} Calling api: {}''] @ evs @ [Log Info ''1 ===> [Time taken: {!s}]''] @
     (case redis_publish env rid res of
        Some e \<Rightarrow> [PublishFailed rid res e,
                   Log Error (''process_thread'' @ zh_exception @ '': '' @ str_exn e)]
      | None \<Rightarrow>
          (case map_of d ''api'' of
             None \<Rightarrow> [Published rid res,
                      Log Error (''process_thread'' @ zh_exception @ '': '' @ str_exn (KeyError ''api''))]
           | Some _ \<Rightarrow> [Published rid res, Log Info ''{} {} [Time taken: {!s}]'']))"
  using assms
  by (simp add: process_thread_def process_thread_try_def subscript_def get_method_def
      split: option.splits)

lemma process_api_chat_success:
  assumes "map_of d ''api'' = Some (JStr chat_api)" "map_of d ''params'' = Some (JObj p)"
    and "map_of p ''image'' = Some image_b64" "map_of p ''text'' = Some question"
    and "load_image_b64 env image_b64 = Inr img" "chat_w_image env question img = Inr r"
  shows "process_api env rid (JObj d) = ([EngineCall question img], success_result r)"
  using assms by (simp add: process_api_def process_api_try_def subscript_def)

lemma process_api_bad_base64:
  assumes "map_of d ''api'' = Some (JStr chat_api)" "map_of d ''params'' = Some (JObj p)"
    and "map_of p ''image'' = Some image_b64" "b64decode env image_b64 = Inl e"
  shows "process_api env rid (JObj d) =
           ([Log Error (fst (process_api_except e))], snd (process_api_except e))"
  using assms
  by (simp add: process_api_def process_api_try_def subscript_def load_image_b64_def)

lemma process_api_unknown_api:
  assumes "map_of d ''api'' = Some (JStr api)" "api \<noteq> chat_api"
  shows "process_api env rid (JObj d) =
           ([Log Error (''Unknown api: '' @ api)], error_result 9900 msg_unknown_api)"
  using assms by (simp add: process_api_def process_api_try_def subscript_def concat_str_def)

lemma process_thread_try_unreached:
  assumes "\<not> (\<exists>kvs rid d. msg_body = JObj kvs \<and> map_of kvs ''request_id'' = Some rid
                               \<and> map_of kvs ''data'' = Some (JObj d))"
  shows "\<exists>e. process_thread_try env msg_body = ([], Some e)"
proof (cases msg_body)
  case (JObj kvs)
  show ?thesis
  proof (cases "map_of kvs ''request_id''")
    case None
    with JObj show ?thesis by (simp add: process_thread_try_def subscript_def)
  next
    case rid: (Some rid)
    show ?thesis
    proof (cases "map_of kvs ''data''")
      case None
      with JObj rid show ?thesis by (simp add: process_thread_try_def subscript_def)
    next
      case (Some data)
      with JObj rid assms have "\<forall>d. data \<noteq> JObj d" by simp
      with JObj rid Some show ?thesis
        by (cases data) (simp_all add: process_thread_try_def subscript_def get_method_def)
    qed
  qed
qed (simp_all add: process_thread_try_def subscript_def)

lemma process_thread_cases:
  obtains (reached) kvs rid d where "msg_body = JObj kvs"
      "map_of kvs ''request_id'' = Some rid" "map_of kvs ''data'' = Some (JObj d)"
  | (failed) e where
      "process_thread env msg_body =
         [Log Error (''process_thread'' @ zh_exception @ '': '' @ str_exn e)]"
proof (cases "\<exists>kvs rid d. msg_body = JObj kvs \<and> map_of kvs ''request_id'' = Some rid
                               \<and> map_of kvs ''data'' = Some (JObj d)")
  case True
  then show ?thesis by (auto intro: reached)
next
  case False
  from process_thread_try_unreached [OF this, of env] obtain e
    where "process_thread_try env msg_body = ([], Some e)" ..
  then show ?thesis by (intro failed [of e]) (simp add: process_thread_def)
qed

lemma publish_calls_empty_set:
  "publish_calls evs = [] \<Longrightarrow> PublishFailed ch r e \<notin> set evs"
  by (induction evs rule: publish_calls.induct) auto

lemma sleeps_listen_loop: "sleeps (fst (listen_loop env its fin)) = []"
  by (induction its) (auto split: sum.splits prod.splits)

lemma listener_starts:
  "\<exists>evs. listener env (s # ss) = Subscribe # evs"
  by (cases s) (auto split: prod.splits ending.splits)

lemma broker_down_trace:
  "process_thread broker_down_env
     (envelope ''r1'' ''/api/internvl/chat'' (JStr ''What is this?'') (JStr ''aGVsbG8='')) =
   [Log Info ''{} Calling api: {}'',
    EngineCall (JStr ''What is this?'') ''hello'',
    Log Info ''1 ===> [Time taken: {!s}]'',
    PublishFailed (JStr ''r1'') (success_result (JStr ''a cat'')) connection_refused,
    Log Error (''process_thread'' @ zh_exception @ '': '' @ str_exn connection_refused)]"
  by (simp add: process_thread_def process_thread_try_def process_api_def process_api_try_def
      subscript_def get_method_def load_image_b64_def b64decode_def is_ascii_def envelope_def
      chat_api_def stub_env_def broker_down_env_def stub_a2b_base64_def)

lemma decode_failure_reply:
  assumes "is_envelope msg_body rid chat_api (JObj p)"
    and "map_of p ''image'' = Some image_b64"
    and "load_image_b64 env image_b64 = Inl e"
  shows "publish_calls (process_thread env msg_body) = [(JStr rid, snd (process_api_except e))]
         \<and> engine_calls (process_thread env msg_body) = []"
proof -
  from assms(1) obtain kvs d where b: "msg_body = JObj kvs"
    "map_of kvs ''request_id'' = Some (JStr rid)" "map_of kvs ''data'' = Some (JObj d)"
    "map_of d ''api'' = Some (JStr chat_api)" "map_of d ''params'' = Some (JObj p)"
    by (rule is_envelopeD)
  have "process_api env (JStr rid) (JObj d) =
          ([Log Error (fst (process_api_except e))], snd (process_api_except e))"
    using b(4,5) assms(2,3)
    by (simp add: process_api_def process_api_try_def subscript_def)
  from process_thread_dict [OF b(2,3) this] b(1,4) show ?thesis
    by (cases "redis_publish env (JStr rid) (snd (process_api_except e))") simp_all
qed

section \<open>Facts about the listener\<close>

lemma subscriptions_append:
  "subscriptions (xs @ ys) = subscriptions xs + subscriptions ys"
  by (induction xs rule: subscriptions.induct) simp_all

lemma subscriptions_listen_loop: "subscriptions (fst (listen_loop env its fin)) = 0"
  by (induction its) (auto split: sum.splits prod.splits)

lemma listener_pass:
  "\<exists>evs. sleeps evs = [] \<and> subscriptions evs = 0 \<and>
     listener env (s # ss) =
       (case pass_ending env s of
          Raises e \<Rightarrow>
            Subscribe # evs @ [Log Info (''Exception: '' @ str_exn e), Sleep 20] @ listener env ss
        | Ends \<Rightarrow> Subscribe # evs @ listener env ss
        | Blocks \<Rightarrow> Subscribe # evs)"
proof (cases s)
  case (SubscribeRaises e)
  have "sleeps ([] :: 'a event list) = [] \<and> subscriptions ([] :: 'a event list) = 0" by simp
  with SubscribeRaises show ?thesis by (intro exI [of _ "[]"]) simp
next
  case (Subscribed its fin)
  obtain evs out where loop: "listen_loop env its fin = (evs, out)"
    by (cases "listen_loop env its fin")
  have "sleeps (NewExecutor # evs) = []"
    using sleeps_listen_loop [of env its fin] loop by simp
  moreover have "subscriptions (NewExecutor # evs) = 0"
    using subscriptions_listen_loop [of env its fin] loop by simp
  moreover have "listener env (s # ss) =
       (case pass_ending env s of
          Raises e \<Rightarrow>
            Subscribe # (NewExecutor # evs) @ [Log Info (''Exception: '' @ str_exn e), Sleep 20]
            @ listener env ss
        | Ends \<Rightarrow> Subscribe # (NewExecutor # evs) @ listener env ss
        | Blocks \<Rightarrow> Subscribe # (NewExecutor # evs))"
    using Subscribed loop by (cases out) simp_all
  ultimately show ?thesis by blast
qed

lemma session_raises_ending:
  "session_raises env s = Some e \<longleftrightarrow> pass_ending env s = Raises e"
  by (cases s) (auto split: ending.splits)

lemma subscriptions_listener:
  "\<forall>s \<in> set ss. pass_ending env s \<noteq> Blocks \<Longrightarrow> subscriptions (listener env ss) = length ss"
proof (induction ss)
  case Nil
  show ?case by simp
next
  case (Cons s ss)
  from listener_pass [of env s ss] obtain evs where evs: "subscriptions evs = 0"
    "listener env (s # ss) =
       (case pass_ending env s of
          Raises e \<Rightarrow>
            Subscribe # evs @ [Log Info (''Exception: '' @ str_exn e), Sleep 20] @ listener env ss
        | Ends \<Rightarrow> Subscribe # evs @ listener env ss
        | Blocks \<Rightarrow> Subscribe # evs)" by blast
  from Cons have ih: "subscriptions (listener env ss) = length ss"
    and nb: "pass_ending env s \<noteq> Blocks" by simp_all
  from nb evs ih show ?case
    by (cases "pass_ending env s") (simp_all add: subscriptions_append)
qed

section \<open>Facts about the pool\<close>

lemma run_append:
  "run k s (as @ bs) = (case run k s as of None \<Rightarrow> None | Some s' \<Rightarrow> run k s' bs)"
  by (induction as arbitrary: s) (simp_all split: option.splits)

lemma enqueued_append: "enqueued (as @ bs) = enqueued as @ enqueued bs"
  by (induction as rule: enqueued.induct) simp_all

text \<open>One pool with one worker: the jobs start and complete in the order of submission.\<close>

lemma fifo_step:
  assumes "pools s = [p]" "length (running p) \<le> 1" "started s = finished s @ running p"
    and "exec 1 s a = Some s'" "a \<noteq> Create"
  shows "\<exists>p'. pools s' = [p'] \<and> length (running p') \<le> 1
           \<and> started s' = finished s' @ running p'
           \<and> finished s' @ running p' @ pending p'
               = finished s @ running p @ pending p @ enqueued [a]"
proof (cases a)
  case Create
  with assms(5) show ?thesis by simp
next
  case (Enqueue j)
  with assms(4) assms(1) have "s' = s\<lparr>pools := [p\<lparr>pending := pending p @ [j]\<rparr>]\<rparr>"
    by simp
  with assms(1,2,3) Enqueue show ?thesis by simp
next
  case (Start i)
  with assms(1,4) obtain j q where st: "i = 0" "pending p = j # q" "running p = []"
    "s' = s\<lparr>pools := [\<lparr>pending = q, running = [j]\<rparr>], started := started s @ [j]\<rparr>"
    by (cases "pending p"; cases "running p") (simp_all split: if_splits)
  with assms(1,2,3) Start show ?thesis by simp
next
  case (Finish i j)
  with assms(1,4) have fi: "i = 0" "j \<in> set (running p)"
    "s' = s\<lparr>pools := [p\<lparr>running := remove1 j (running p)\<rparr>], finished := finished s @ [j]\<rparr>"
    by (simp_all split: if_splits)
  from fi(2) assms(2) have "running p = [j]" by (cases "running p") simp_all
  with fi assms(1,2,3) Finish show ?thesis by simp
qed


lemma fifo_run:
  assumes "run 1 s as = Some s'" "Create \<notin> set as"
    and "pools s = [p]" "length (running p) \<le> 1" "started s = finished s @ running p"
  shows "\<exists>p'. pools s' = [p'] \<and> length (running p') \<le> 1
           \<and> started s' = finished s' @ running p'
           \<and> finished s' @ running p' @ pending p'
               = finished s @ running p @ pending p @ enqueued as"
  using assms
proof (induction as arbitrary: s p)
  case Nil
  then show ?case by simp
next
  case (Cons a as)
  from Cons.prems(1) obtain t where t: "exec 1 s a = Some t" "run 1 t as = Some s'"
    by (cases "exec 1 s a") simp_all
  from Cons.prems(2) have a: "a \<noteq> Create" and as: "Create \<notin> set as" by auto
  from fifo_step [OF Cons.prems(3,4,5) t(1) a] obtain q where q: "pools t = [q]"
    "length (running q) \<le> 1" "started t = finished t @ running q"
    "finished t @ running q @ pending q = finished s @ running p @ pending p @ enqueued [a]"
    by blast
  from Cons.IH [OF t(2) as q(1,2,3)] obtain p' where p': "pools s' = [p']"
    "length (running p') \<le> 1" "started s' = finished s' @ running p'"
    "finished s' @ running p' @ pending p' = finished t @ running q @ pending q @ enqueued as"
    by blast
  have "enqueued (a # as) = enqueued [a] @ enqueued as"
    using enqueued_append [of "[a]" as] by simp
  with p'(4) q(4) have "finished s' @ running p' @ pending p'
      = finished s @ running p @ pending p @ enqueued (a # as)" by simp
  with p'(1,2,3) show ?case by blast
qed

lemma single_pool_fifo:
  assumes "run 1 boot (Create # as) = Some s" "Create \<notin> set as"
  shows "\<exists>p. pools s = [p] \<and> length (running p) \<le> 1
           \<and> started s = finished s @ running p
           \<and> finished s @ running p @ pending p = enqueued as"
proof -
  let ?t = "boot\<lparr>pools := [idle]\<rparr>"
  from assms(1) have r: "run 1 ?t as = Some s" by (simp add: boot_def)
  have "pools ?t = [idle]" "length (running idle) \<le> 1"
    "started ?t = finished ?t @ running idle"
    by (simp_all add: boot_def idle_def)
  from fifo_run [OF r assms(2) this] show ?thesis
    by (simp add: boot_def idle_def)
qed

text \<open>
  Any number of workers and pools: a submitted job is pending, running or completed, once.
  When every pool is idle, the completed jobs are the submitted ones.
\<close>

lemma mset_concat_update:
  "i < length xs \<Longrightarrow>
     mset (concat (map f (xs[i := y]))) + mset (f (xs ! i)) = mset (concat (map f xs)) + mset (f y)"
proof (induction xs arbitrary: i)
  case Nil
  then show ?case by simp
next
  case (Cons x xs)
  show ?case
  proof (cases i)
    case 0
    then show ?thesis by simp
  next
    case (Suc n)
    with Cons.prems have "n < length xs" by simp
    from Cons.IH [OF this] Suc show ?thesis by (simp add: add.assoc)
  qed
qed


lemma in_pools_snoc:
  "pools s = ps @ [p] \<Longrightarrow>
     in_pools s = concat (map (\<lambda>p. running p @ pending p) ps) @ running p @ pending p"
  by (simp add: in_pools_def)

lemma exec_jobs:
  assumes "exec k s a = Some s'"
  shows "mset (finished s') + mset (in_pools s')
           = mset (finished s) + mset (in_pools s) + mset (enqueued [a])"
proof (cases a)
  case Create
  with assms have "s' = s\<lparr>pools := pools s @ [idle]\<rparr>" by simp
  then show ?thesis using Create by (simp add: in_pools_def idle_def)
next
  case (Enqueue j)
  define ps where "ps = butlast (pools s)"
  define p where "p = last (pools s)"
  from assms Enqueue have ne: "pools s \<noteq> []" by (simp split: if_splits)
  then have old: "pools s = ps @ [p]" by (simp add: ps_def p_def)
  from assms Enqueue ne have "s' = s\<lparr>pools := ps @ [p\<lparr>pending := pending p @ [j]\<rparr>]\<rparr>"
    by (simp add: ps_def p_def)
  then have new: "pools s' = ps @ [p\<lparr>pending := pending p @ [j]\<rparr>]" "finished s' = finished s"
    by simp_all
  from in_pools_snoc [OF old] in_pools_snoc [OF new(1)] new(2) Enqueue show ?thesis
    by simp
next
  case (Start i)
  with assms obtain j q where st: "i < length (pools s)" "pending (pools s ! i) = j # q"
    "s' = s\<lparr>pools := (pools s)[i := \<lparr>pending = q, running = running (pools s ! i) @ [j]\<rparr>],
           started := started s @ [j]\<rparr>"
    by (cases "pending (pools s ! i)") (simp_all split: if_splits)
  from mset_concat_update [OF st(1), of "\<lambda>p. running p @ pending p"
      "\<lparr>pending = q, running = running (pools s ! i) @ [j]\<rparr>"] st Start
  show ?thesis by (simp add: in_pools_def)
next
  case (Finish i j)
  define old where "old = pools s ! i"
  define rest where "rest = remove1 j (running old)"
  from assms Finish have fi: "i < length (pools s)" "j \<in> set (running old)"
    "s' = s\<lparr>pools := (pools s)[i := old\<lparr>running := rest\<rparr>], finished := finished s @ [j]\<rparr>"
    by (simp_all add: old_def rest_def split: if_splits)
  from fi(2) have m: "mset (running old) = add_mset j (mset rest)"
    by (simp add: rest_def)
  have "mset (concat (map (\<lambda>p. running p @ pending p) ((pools s)[i := old\<lparr>running := rest\<rparr>])))
          + mset (running old @ pending old)
        = mset (concat (map (\<lambda>p. running p @ pending p) (pools s)))
          + mset (running (old\<lparr>running := rest\<rparr>) @ pending (old\<lparr>running := rest\<rparr>))"
    using mset_concat_update [OF fi(1), of "\<lambda>p. running p @ pending p" "old\<lparr>running := rest\<rparr>"]
    by (simp only: old_def)
  then have "add_mset j (mset (in_pools s')) = mset (in_pools s)"
    by (simp add: in_pools_def fi(3) m)
  then have "mset (in_pools s) = add_mset j (mset (in_pools s'))" by simp
  moreover have "finished s' = finished s @ [j]" by (simp add: fi(3))
  ultimately show ?thesis using Finish by simp
qed

lemma run_jobs:
  "run k s as = Some s' \<Longrightarrow>
     mset (finished s') + mset (in_pools s') = mset (finished s) + mset (in_pools s) + mset (enqueued as)"
proof (induction as arbitrary: s)
  case Nil
  then show ?case by simp
next
  case (Cons a as)
  from Cons.prems obtain t where t: "exec k s a = Some t" "run k t as = Some s'"
    by (cases "exec k s a") simp_all
  have "enqueued (a # as) = enqueued [a] @ enqueued as"
    using enqueued_append [of "[a]" as] by simp
  with Cons.IH [OF t(2)] exec_jobs [OF t(1)] show ?case by simp
qed

lemma pool_exactly_once:
  assumes "run k boot as = Some s" "\<forall>p \<in> set (pools s). pending p = [] \<and> running p = []"
  shows "mset (finished s) = mset (enqueued as)"
proof -
  from assms(2) have 1: "in_pools s = []" by (simp add: in_pools_def)
  have 2: "in_pools boot = []" "finished boot = []" by (simp_all add: in_pools_def boot_def)
  from run_jobs [OF assms(1)] show ?thesis unfolding 1 2 by simp
qed


section \<open>The chat operation\<close>

text \<open>
  C1, as the code has it. A valid envelope names the registered operation
  \<open>/api/internvl/chat\<close>, its image decodes and the engine returns \<open>r\<close>. Then
  \<open>process_thread\<close> calls the engine once and \<open>redis_publish\<close> exactly once, on the channel
  \<open>request_id\<close>, with \<open>{code: 0, msg: 'success', result: r}\<close>; this result is published once
  if the call returns and not at all if it raises.
\<close>

theorem chat_success_published:
  assumes "is_envelope msg_body rid chat_api (JObj p)"
    and "map_of p ''image'' = Some image_b64"
    and "map_of p ''text'' = Some question"
    and "load_image_b64 env image_b64 = Inr img"
    and "chat_w_image env question img = Inr r"
  shows "publish_calls (process_thread env msg_body) =
           [(JStr rid, \<lparr>code = 0, msg = ''success'', result = Some r\<rparr>)]
         \<and> published (process_thread env msg_body) =
             (if redis_publish env (JStr rid) \<lparr>code = 0, msg = ''success'', result = Some r\<rparr> = None
              then [(JStr rid, \<lparr>code = 0, msg = ''success'', result = Some r\<rparr>)] else [])
         \<and> engine_calls (process_thread env msg_body) = [(question, img)]"
proof -
  from assms(1) obtain kvs d where b: "msg_body = JObj kvs"
    "map_of kvs ''request_id'' = Some (JStr rid)" "map_of kvs ''data'' = Some (JObj d)"
    "map_of d ''api'' = Some (JStr chat_api)" "map_of d ''params'' = Some (JObj p)"
    by (rule is_envelopeD)
  have "process_api env (JStr rid) (JObj d) = ([EngineCall question img], success_result r)"
    using b(4,5) assms(2-5) by (rule process_api_chat_success)
  from process_thread_dict [OF b(2,3) this] b(1,4) show ?thesis
    by (cases "redis_publish env (JStr rid) (success_result r)")
      (simp_all add: success_result_def)
qed

theorem chat_success_published_witness:
  "publish_calls (process_thread stub_env
      (envelope ''r1'' ''/api/internvl/chat'' (JStr ''What is this?'') (JStr ''aGVsbG8=''))) =
     [(JStr ''r1'', \<lparr>code = 0, msg = ''success'', result = Some (JStr ''a cat'')\<rparr>)]
   \<and> published (process_thread stub_env
      (envelope ''r1'' ''/api/internvl/chat'' (JStr ''What is this?'') (JStr ''aGVsbG8=''))) =
     [(JStr ''r1'', \<lparr>code = 0, msg = ''success'', result = Some (JStr ''a cat'')\<rparr>)]"
proof -
  let ?p = "[(''text'', JStr ''What is this?''), (''image'', JStr ''aGVsbG8='')]"
  have 1: "is_envelope (envelope ''r1'' ''/api/internvl/chat'' (JStr ''What is this?'') (JStr ''aGVsbG8=''))
             ''r1'' chat_api (JObj ?p)"
    by (simp add: is_envelope_def envelope_def chat_api_def)
  have 2: "map_of ?p ''image'' = Some (JStr ''aGVsbG8='')" by simp
  have 3: "map_of ?p ''text'' = Some (JStr ''What is this?'')" by simp
  have 4: "load_image_b64 stub_env (JStr ''aGVsbG8='') = Inr ''hello''"
    by (simp add: load_image_b64_def b64decode_def is_ascii_def stub_env_def stub_a2b_base64_def)
  have 5: "chat_w_image stub_env (JStr ''What is this?'') ''hello'' = Inr (JStr ''a cat'')"
    by (simp add: stub_env_def)
  have 6: "redis_publish stub_env (JStr ''r1'')
             \<lparr>code = 0, msg = ''success'', result = Some (JStr ''a cat'')\<rparr> = None"
    by (simp add: stub_env_def)
  from chat_success_published [OF 1 2 3 4 5] 6 show ?thesis by simp
qed

text \<open>
  C1, as stated, fails: the image is a valid PNG file, the engine answers, and the broker
  refuses the connection at publish time; nothing is published.
\<close>

theorem chat_result_lost_counterexample:
  "is_envelope (envelope ''r1'' ''/api/internvl/chat'' (JStr ''What is this?'') (JStr png_b64))
     ''r1'' ''/api/internvl/chat''
     (JObj [(''text'', JStr ''What is this?''), (''image'', JStr png_b64)])
   \<and> load_image_b64 png_broker_down_env (JStr png_b64) = Inr png_bytes
   \<and> chat_w_image png_broker_down_env (JStr ''What is this?'') png_bytes = Inr (JStr ''a cat'')
   \<and> engine_calls (process_thread png_broker_down_env
        (envelope ''r1'' ''/api/internvl/chat'' (JStr ''What is this?'') (JStr png_b64))) =
       [(JStr ''What is this?'', png_bytes)]
   \<and> published (process_thread png_broker_down_env
        (envelope ''r1'' ''/api/internvl/chat'' (JStr ''What is this?'') (JStr png_b64))) = []"
proof -
  have ascii: "is_ascii png_b64" by (simp add: is_ascii_def png_b64_def)
  have load: "load_image_b64 png_broker_down_env (JStr png_b64) = Inr png_bytes"
    by (simp add: load_image_b64_def b64decode_def ascii png_broker_down_env_def)
  have chat: "chat_w_image png_broker_down_env (JStr ''What is this?'') png_bytes
                = Inr (JStr ''a cat'')"
    by (simp add: png_broker_down_env_def)
  let ?p = "[(''text'', JStr ''What is this?''), (''image'', JStr png_b64)]"
  have env: "is_envelope (envelope ''r1'' ''/api/internvl/chat'' (JStr ''What is this?'')
                (JStr png_b64)) ''r1'' ''/api/internvl/chat'' (JObj ?p)"
    by (simp add: is_envelope_def envelope_def)
  have api: "process_api png_broker_down_env (JStr ''r1'')
               (JObj [(''api'', JStr ''/api/internvl/chat''), (''params'', JObj ?p)])
             = ([EngineCall (JStr ''What is this?'') png_bytes], success_result (JStr ''a cat''))"
  proof (rule process_api_chat_success [OF _ _ _ _ load chat])
    show "map_of [(''api'', JStr ''/api/internvl/chat''), (''params'', JObj ?p)] ''api''
            = Some (JStr chat_api)" by (simp add: chat_api_def)
    show "map_of [(''api'', JStr ''/api/internvl/chat''), (''params'', JObj ?p)] ''params''
            = Some (JObj ?p)" by simp
    show "map_of ?p ''image'' = Some (JStr png_b64)" by simp
    show "map_of ?p ''text'' = Some (JStr ''What is this?'')" by simp
  qed
  have bad: "redis_publish png_broker_down_env (JStr ''r1'') (success_result (JStr ''a cat''))
               = Some connection_refused"
    by (simp add: png_broker_down_env_def)
  have "process_thread png_broker_down_env
          (envelope ''r1'' ''/api/internvl/chat'' (JStr ''What is this?'') (JStr png_b64)) =
        [Log Info ''{} Calling api: {}'', EngineCall (JStr ''What is this?'') png_bytes,
         Log Info ''1 ===> [Time taken: {!s}]'',
         PublishFailed (JStr ''r1'') (success_result (JStr ''a cat'')) connection_refused,
         Log Error (''process_thread'' @ zh_exception @ '': '' @ str_exn connection_refused)]"
    unfolding envelope_def
    using process_thread_dict [OF _ _ api, of "[(''request_id'', JStr ''r1''),
      (''data'', JObj [(''api'', JStr ''/api/internvl/chat''), (''params'', JObj ?p)])]"] bad
    by simp
  with env load chat show ?thesis by simp
qed

text \<open>
  C4. An image field that is a str with a character outside ASCII is not base64, and
  \<open>b64decode\<close> raises on it, but a \<open>ValueError\<close>, which the clause for \<open>binascii.Error\<close>
  does not catch: the reply has code 9998 where the text \<open>not-base64!!\<close>, rejected by the
  same call, is answered with code 9901. The engine is called in neither case.
\<close>

theorem non_ascii_image_unclassified:
  "b64decode stub_env (JStr e_acute) =
     Inl (ValueError ''string argument should contain only ASCII characters'')
   \<and> publish_calls (process_thread stub_env
        (envelope ''r1'' ''/api/internvl/chat'' (JStr ''What is this?'') (JStr e_acute))) =
       [(JStr ''r1'', \<lparr>code = 9998,
          msg = msg_unknown_error @ ''string argument should contain only ASCII characters'',
          result = None\<rparr>)]
   \<and> engine_calls (process_thread stub_env
        (envelope ''r1'' ''/api/internvl/chat'' (JStr ''What is this?'') (JStr e_acute))) = []
   \<and> publish_calls (process_thread stub_env
        (envelope ''r1'' ''/api/internvl/chat'' (JStr ''What is this?'') (JStr ''not-base64!!''))) =
       [(JStr ''r1'', \<lparr>code = 9901,
          msg = msg_base64 @ ''Invalid base64-encoded string: number of data characters (9) ''
                           @ ''cannot be 1 more than a multiple of 4'',
          result = None\<rparr>)]"
proof -
  have 1: "b64decode stub_env (JStr e_acute) =
     Inl (ValueError ''string argument should contain only ASCII characters'')"
    by (simp add: b64decode_def is_ascii_def e_acute_def stub_env_def)
  then have l1: "load_image_b64 stub_env (JStr e_acute) =
     Inl (ValueError ''string argument should contain only ASCII characters'')"
    by (simp add: load_image_b64_def)
  have l2: "load_image_b64 stub_env (JStr ''not-base64!!'') =
     Inl (BinasciiError (''Invalid base64-encoded string: number of data characters (9) ''
                            @ ''cannot be 1 more than a multiple of 4''))"
    by (simp add: load_image_b64_def b64decode_def is_ascii_def stub_env_def
        stub_a2b_base64_def)
  have e: "\<And>i. is_envelope (envelope ''r1'' ''/api/internvl/chat'' (JStr ''What is this?'') i)
             ''r1'' chat_api (JObj [(''text'', JStr ''What is this?''), (''image'', i)])"
    by (simp add: is_envelope_def envelope_def chat_api_def)
  have m: "\<And>i. map_of [(''text'', JStr ''What is this?''), (''image'', i)] ''image'' = Some i"
    by simp
  from decode_failure_reply [OF e m l1] decode_failure_reply [OF e m l2] 1 show ?thesis
    by (simp add: process_api_except_def error_result_def)
qed

section \<open>An unregistered operation\<close>

text \<open>
  C5. A valid envelope whose \<open>api\<close> is not the registered operation: the only call of
  \<open>redis_publish\<close> is on the channel \<open>request_id\<close> with
  \<open>{code: 9900, msg: msg_unknown_api}\<close>, so this is the result published whenever the broker
  accepts the call, and the engine is not called, whatever the broker does.
\<close>

theorem unknown_api_reply:
  assumes "is_envelope msg_body rid api params"
    and "api \<noteq> chat_api"
  shows "publish_calls (process_thread env msg_body) =
           [(JStr rid, \<lparr>code = 9900, msg = msg_unknown_api, result = None\<rparr>)]
         \<and> published (process_thread env msg_body) =
             (if redis_publish env (JStr rid) \<lparr>code = 9900, msg = msg_unknown_api, result = None\<rparr>
                 = None
              then [(JStr rid, \<lparr>code = 9900, msg = msg_unknown_api, result = None\<rparr>)] else [])
         \<and> engine_calls (process_thread env msg_body) = []"
proof -
  from assms(1) obtain kvs d where b: "msg_body = JObj kvs"
    "map_of kvs ''request_id'' = Some (JStr rid)" "map_of kvs ''data'' = Some (JObj d)"
    "map_of d ''api'' = Some (JStr api)" "map_of d ''params'' = Some params"
    by (rule is_envelopeD)
  have "process_api env (JStr rid) (JObj d) =
          ([Log Error (''Unknown api: '' @ api)], error_result 9900 msg_unknown_api)"
    using b(4) assms(2) by (rule process_api_unknown_api)
  from process_thread_dict [OF b(2,3) this] b(1,4) show ?thesis
    by (cases "redis_publish env (JStr rid) (error_result 9900 msg_unknown_api)")
      (simp_all add: error_result_def)
qed

theorem unknown_api_reply_witness:
  "publish_calls (process_thread broker_down_env
      (envelope ''r1'' ''/unknown'' (JStr ''hi'') (JStr ''aGVsbG8=''))) =
     [(JStr ''r1'', \<lparr>code = 9900, msg = msg_unknown_api, result = None\<rparr>)]
   \<and> published (process_thread stub_env
      (envelope ''r1'' ''/unknown'' (JStr ''hi'') (JStr ''aGVsbG8=''))) =
     [(JStr ''r1'', \<lparr>code = 9900, msg = msg_unknown_api, result = None\<rparr>)]
   \<and> engine_calls (process_thread stub_env
        (envelope ''r1'' ''/unknown'' (JStr ''hi'') (JStr ''aGVsbG8=''))) = []"
proof -
  have 1: "is_envelope (envelope ''r1'' ''/unknown'' (JStr ''hi'') (JStr ''aGVsbG8='')) ''r1''
             ''/unknown'' (JObj [(''text'', JStr ''hi''), (''image'', JStr ''aGVsbG8='')])"
    by (simp add: is_envelope_def envelope_def)
  have 2: "''/unknown'' \<noteq> chat_api" by (simp add: chat_api_def)
  have 3: "redis_publish stub_env (JStr ''r1'')
             \<lparr>code = 9900, msg = msg_unknown_api, result = None\<rparr> = None"
    by (simp add: stub_env_def)
  from unknown_api_reply [OF 1 2, of stub_env] unknown_api_reply [OF 1 2, of broker_down_env] 3
  show ?thesis by simp
qed

section \<open>Every request gets a result from process_api\<close>

text \<open>
  C6. \<open>process_api\<close> returns a result for every request value, whatever the collaborators
  do: its code is one of 0, 9900, 9901, 9902 and 9998, and an exception that leaves the
  \<open>try\<close> body is turned into the result of its \<open>except\<close> clause, code 9998 with the msg of
  the source's literal followed by \<open>str(e)\<close> unless it is a \<open>binascii.Error\<close> or a
  \<open>JSONDecodeError\<close>. No exception reaches the caller.
\<close>

theorem process_api_always_result:
  "code (snd (process_api env request_id request)) \<in> {0, 9900, 9901, 9902, 9998}
   \<and> (\<forall>evs e. process_api_try env request = (evs, Inl e) \<longrightarrow>
          snd (process_api env request_id request) =
            (case e of
               BinasciiError m \<Rightarrow> error_result 9901 (msg_base64 @ m)
             | JSONDecodeError m \<Rightarrow> error_result 9902 (msg_json @ m)
             | _ \<Rightarrow> error_result 9998 (msg_unknown_error @ str_exn e)))"
proof (intro conjI allI impI)
  show "code (snd (process_api env request_id request)) \<in> {0, 9900, 9901, 9902, 9998}"
    by (rule process_api_codes)
next
  fix evs e
  assume "process_api_try env request = (evs, Inl e)"
  then show "snd (process_api env request_id request) =
            (case e of
               BinasciiError m \<Rightarrow> error_result 9901 (msg_base64 @ m)
             | JSONDecodeError m \<Rightarrow> error_result 9902 (msg_json @ m)
             | _ \<Rightarrow> error_result 9998 (msg_unknown_error @ str_exn e))"
    by (cases e) (simp_all add: process_api_def process_api_except_def)
qed

theorem process_api_always_result_witness:
  "snd (process_api stub_env (JStr ''r1'') (JArr [])) =
     error_result 9998 (msg_unknown_error @ ''object is not subscriptable'')"
proof -
  have "process_api_try stub_env (JArr []) =
          ([], Inl (TypeError ''object is not subscriptable''))"
    by (simp add: process_api_try_def subscript_def stub_env_def)
  with process_api_always_result [of stub_env "JStr ''r1''" "JArr []"] show ?thesis
    by simp
qed

section \<open>The worker and the reply channel\<close>

text \<open>
  C3, as the code has it. For every valid envelope, \<open>process_thread\<close> calls
  \<open>redis_publish\<close> exactly once, on the channel \<open>request_id\<close>, with a complete result whose
  code is one of the five of \<open>process_api\<close>. The result is published once if the call
  returns and not at all if it raises; it is never published twice.
\<close>

theorem envelope_one_publish_call:
  assumes "is_envelope msg_body rid api params"
  shows "\<exists>res. code res \<in> {0, 9900, 9901, 9902, 9998}
           \<and> publish_calls (process_thread env msg_body) = [(JStr rid, res)]
           \<and> published (process_thread env msg_body) =
               (if redis_publish env (JStr rid) res = None then [(JStr rid, res)] else [])"
proof -
  from assms obtain kvs d where b: "msg_body = JObj kvs"
    "map_of kvs ''request_id'' = Some (JStr rid)" "map_of kvs ''data'' = Some (JObj d)"
    "map_of d ''api'' = Some (JStr api)" "map_of d ''params'' = Some params"
    by (rule is_envelopeD)
  obtain evs r where api: "process_api env (JStr rid) (JObj d) = (evs, r)"
    by (cases "process_api env (JStr rid) (JObj d)")
  have calls: "publish_calls evs = []"
    using process_api_publish_calls [of env "JStr rid" "JObj d"] api by simp
  then have pubs: "published evs = []" by (rule published_sub)
  have code: "code r \<in> {0, 9900, 9901, 9902, 9998}"
    using process_api_codes [of env "JStr rid" "JObj d"] api by simp
  note tr = process_thread_dict [OF b(2,3) api]
  have "publish_calls (process_thread env msg_body) = [(JStr rid, r)]"
    using tr b(1,4) calls
    by (cases "redis_publish env (JStr rid) r") (simp_all add: publish_calls_append)
  moreover have "published (process_thread env msg_body) =
               (if redis_publish env (JStr rid) r = None then [(JStr rid, r)] else [])"
    using tr b(1,4) pubs
    by (cases "redis_publish env (JStr rid) r") (simp_all add: published_append)
  ultimately show ?thesis using code by blast
qed

theorem envelope_one_publish_call_witness:
  "length (publish_calls (process_thread stub_env
     (envelope ''r1'' ''/unknown'' (JStr ''hi'') (JStr ''aGVsbG8='')))) = 1"
proof -
  have "is_envelope (envelope ''r1'' ''/unknown'' (JStr ''hi'') (JStr ''aGVsbG8='')) ''r1''
             ''/unknown'' (JObj [(''text'', JStr ''hi''), (''image'', JStr ''aGVsbG8='')])"
    by (simp add: is_envelope_def envelope_def)
  from envelope_one_publish_call [OF this, of stub_env] show ?thesis by auto
qed

text \<open>
  C3, as stated, fails: with a broker that refuses the connection at publish time, a valid
  envelope is processed, the engine answers, and nothing is published: the result is lost
  while the worker returns and the process goes on.
\<close>

theorem broker_down_counterexample:
  "is_envelope (envelope ''r1'' ''/api/internvl/chat'' (JStr ''What is this?'') (JStr ''aGVsbG8=''))
     ''r1'' ''/api/internvl/chat''
     (JObj [(''text'', JStr ''What is this?''), (''image'', JStr ''aGVsbG8='')])
   \<and> published (process_thread broker_down_env
        (envelope ''r1'' ''/api/internvl/chat'' (JStr ''What is this?'') (JStr ''aGVsbG8=''))) = []"
  by (simp add: broker_down_trace) (simp add: is_envelope_def envelope_def)

text \<open>
  C8. Whenever a call of \<open>redis_publish\<close> raises in \<open>process_thread\<close>, whatever the message
  body, the trace ends with that failed call and the error record of the handler: the
  failure is logged, no other call of \<open>redis_publish\<close> is made before or after it, and
  \<open>process_thread\<close> returns.
\<close>

theorem publish_failure_swallowed:
  assumes "PublishFailed ch res e \<in> set (process_thread env msg_body)"
  shows "\<exists>evs. process_thread env msg_body =
            evs @ [PublishFailed ch res e,
                   Log Error (''process_thread'' @ zh_exception @ '': '' @ str_exn e)]
          \<and> publish_calls evs = []"
proof (cases rule: process_thread_cases [where msg_body = msg_body and env = env])
  case (failed e')
  with assms show ?thesis by simp
next
  case (reached kvs rid d)
  obtain evs r where api: "process_api env rid (JObj d) = (evs, r)"
    by (cases "process_api env rid (JObj d)")
  have calls: "publish_calls evs = []"
    using process_api_publish_calls [of env rid "JObj d"] api by simp
  then have notin: "PublishFailed ch res e \<notin> set evs"
    by (rule publish_calls_empty_set)
  note tr = process_thread_dict [OF reached(2,3) api]
  show ?thesis
  proof (cases "redis_publish env rid r")
    case None
    with tr reached(1) assms notin show ?thesis
      by (auto split: option.splits)
  next
    case (Some e')
    with tr reached(1) assms notin have eq: "ch = rid" "res = r" "e = e'"
      by auto
    show ?thesis
    proof (intro exI conjI)
      show "process_thread env msg_body =
              ([Log Info ''{} Calling api: {}''] @ evs @ [Log Info ''1 ===> [Time taken: {!s}]''])
              @ [PublishFailed ch res e,
                 Log Error (''process_thread'' @ zh_exception @ '': '' @ str_exn e)]"
        using tr reached(1) Some eq by simp
      show "publish_calls ([Log Info ''{} Calling api: {}''] @ evs
              @ [Log Info ''1 ===> [Time taken: {!s}]'']) = []"
        using calls by (simp add: publish_calls_append)
    qed
  qed
qed

theorem publish_failure_swallowed_witness:
  "PublishFailed (JStr ''r1'') (success_result (JStr ''a cat'')) connection_refused
     \<in> set (process_thread broker_down_env
          (envelope ''r1'' ''/api/internvl/chat'' (JStr ''What is this?'') (JStr ''aGVsbG8='')))
   \<and> publish_calls (process_thread broker_down_env
          (envelope ''r1'' ''/api/internvl/chat'' (JStr ''What is this?'') (JStr ''aGVsbG8=''))) =
       [(JStr ''r1'', success_result (JStr ''a cat''))]"
proof -
  let ?tr = "process_thread broker_down_env
          (envelope ''r1'' ''/api/internvl/chat'' (JStr ''What is this?'') (JStr ''aGVsbG8=''))"
  have 1: "PublishFailed (JStr ''r1'') (success_result (JStr ''a cat'')) connection_refused
             \<in> set ?tr"
    by (simp add: broker_down_trace)
  from publish_failure_swallowed [OF 1] obtain evs where
    "?tr = evs @ [PublishFailed (JStr ''r1'') (success_result (JStr ''a cat'')) connection_refused,
                  Log Error (''process_thread'' @ zh_exception @ '': ''
                             @ str_exn connection_refused)]"
    "publish_calls evs = []" by blast
  then have "publish_calls ?tr = [(JStr ''r1'', success_result (JStr ''a cat''))]"
    by (simp add: publish_calls_append)
  with 1 show ?thesis by simp
qed

text \<open>
  C10. A message body that is a dict without \<open>request_id\<close> or without \<open>data\<close>: the
  \<open>KeyError\<close> is caught and logged by \<open>process_thread\<close>, which does nothing else; no call of
  \<open>redis_publish\<close> is made on any channel.
\<close>

theorem missing_key_no_publication:
  assumes "map_of kvs ''request_id'' = None \<or> map_of kvs ''data'' = None"
  shows "process_thread env (JObj kvs) =
           [Log Error (''process_thread'' @ zh_exception @ '': '' @ repr_str
              (if map_of kvs ''request_id'' = None then ''request_id'' else ''data''))]
         \<and> publish_calls (process_thread env (JObj kvs)) = []"
proof (cases "map_of kvs ''request_id''")
  case None
  then show ?thesis
    by (simp add: process_thread_def process_thread_try_def subscript_def)
next
  case (Some rid)
  with assms have "map_of kvs ''data'' = None" by simp
  with Some show ?thesis
    by (simp add: process_thread_def process_thread_try_def subscript_def)
qed

theorem missing_key_no_publication_witness:
  "process_thread stub_env (JObj [(''data'', JObj [(''api'', JStr ''/api/internvl/chat'')])]) =
     [Log Error (''process_thread'' @ zh_exception @ '': '' @ repr_str ''request_id'')]
   \<and> publish_calls (process_thread stub_env
        (JObj [(''data'', JObj [(''api'', JStr ''/api/internvl/chat'')])])) = []"
  using missing_key_no_publication
    [of "[(''data'', JObj [(''api'', JStr ''/api/internvl/chat'')])]" stub_env]
  by simp

section \<open>The listener\<close>

text \<open>
  C7. When a pass of the listener raises an exception \<open>e\<close> of any class, from
  \<open>redis_subscribe\<close>, from \<open>ps.listen()\<close> or from decoding a message, the listener logs
  \<open>'Exception: ' + str(e)\<close>, sleeps 20, which is its only sleep of the pass, and runs the
  loop again from the top on what the broker does next, starting with a new subscription.
  A pass whose \<open>ps.listen()\<close> ends without raising goes back to the top of the loop as well,
  without sleeping. The listener never leaves the loop: as long as the passes end, one way
  or the other, it subscribes once more after each.
\<close>

theorem listener_recovers:
  "(session_raises env s = Some e \<longrightarrow>
      (\<exists>evs. listener env (s # ss) =
          Subscribe # evs @ [Log Info (''Exception: '' @ str_exn e), Sleep 20] @ listener env ss
        \<and> sleeps evs = []))
   \<and> (pass_ending env s = Ends \<longrightarrow>
      (\<exists>evs. listener env (s # ss) = Subscribe # evs @ listener env ss \<and> sleeps evs = []))
   \<and> (ss = [] \<or> hd (listener env ss) = Subscribe)
   \<and> ((\<forall>s' \<in> set (s # ss). pass_ending env s' \<noteq> Blocks) \<longrightarrow>
        subscriptions (listener env (s # ss)) = length (s # ss))"
proof (intro conjI impI)
  from listener_pass [of env s ss] obtain evs where evs: "sleeps evs = []"
    "listener env (s # ss) =
       (case pass_ending env s of
          Raises e \<Rightarrow>
            Subscribe # evs @ [Log Info (''Exception: '' @ str_exn e), Sleep 20] @ listener env ss
        | Ends \<Rightarrow> Subscribe # evs @ listener env ss
        | Blocks \<Rightarrow> Subscribe # evs)" by blast
  {
    assume "session_raises env s = Some e"
    then have "pass_ending env s = Raises e" by (simp add: session_raises_ending)
    with evs show "\<exists>evs. listener env (s # ss) =
          Subscribe # evs @ [Log Info (''Exception: '' @ str_exn e), Sleep 20] @ listener env ss
        \<and> sleeps evs = []" by auto
  }
  {
    assume "pass_ending env s = Ends"
    with evs show "\<exists>evs. listener env (s # ss) = Subscribe # evs @ listener env ss
        \<and> sleeps evs = []" by auto
  }
  show "ss = [] \<or> hd (listener env ss) = Subscribe"
  proof (cases ss)
    case (Cons s' ss')
    from listener_starts [of env s' ss'] Cons show ?thesis by auto
  qed simp
  {
    assume "\<forall>s' \<in> set (s # ss). pass_ending env s' \<noteq> Blocks"
    then show "subscriptions (listener env (s # ss)) = length (s # ss)"
      by (rule subscriptions_listener)
  }
qed

theorem listener_recovers_witness:
  "sleeps (listener stub_env
     [Subscribed [\<lparr>item_type = ''message'', item_data = ''not json''\<rparr>] Blocks,
      Subscribed [] Ends]) = [20]
   \<and> subscriptions (listener stub_env
     [Subscribed [\<lparr>item_type = ''message'', item_data = ''not json''\<rparr>] Blocks,
      Subscribed [] Ends]) = 2"
proof -
  let ?s = "Subscribed [\<lparr>item_type = ''message'', item_data = ''not json''\<rparr>] Blocks"
  have 1: "session_raises stub_env ?s =
          Some (JSONDecodeError ''Expecting value: line 1 column 1 (char 0)'')"
    by (simp add: stub_env_def stub_json_loads_def)
  have 2: "\<forall>s' \<in> set [?s, Subscribed [] Ends]. pass_ending stub_env s' \<noteq> Blocks"
    by (simp add: stub_env_def stub_json_loads_def)
  from listener_recovers [of stub_env ?s
      "JSONDecodeError ''Expecting value: line 1 column 1 (char 0)''" "[Subscribed [] Ends]"] 1 2
  show ?thesis by (auto simp: sleeps_append)
qed

text \<open>
  C2. A broker message whose payload is not JSON: \<open>json.loads\<close> raises in the listener,
  outside \<open>process_api\<close> and its clause for \<open>JSONDecodeError\<close>. Nothing is submitted to the
  pool, so no result is published for the payload; the message after it on the same
  subscription is never read; the listener sleeps 20 and subscribes again.
\<close>

theorem malformed_payload_unanswered:
  "listener stub_env
     [Subscribed [\<lparr>item_type = ''message'', item_data = ''not json''\<rparr>,
                  \<lparr>item_type = ''message'', item_data = ''{}''\<rparr>] Blocks,
      Subscribed [] Blocks] =
   [Subscribe, NewExecutor, Log Info received,
    Log Info ''Exception: Expecting value: line 1 column 1 (char 0)'', Sleep 20,
    Subscribe, NewExecutor]
   \<and> submitted (listener stub_env
     [Subscribed [\<lparr>item_type = ''message'', item_data = ''not json''\<rparr>,
                  \<lparr>item_type = ''message'', item_data = ''{}''\<rparr>] Blocks,
      Subscribed [] Blocks]) = []"
  by (simp add: stub_env_def stub_json_loads_def)

section \<open>The order of execution\<close>

text \<open>
  C9. With \<open>MAX_DISPATCHER_WORKERS = 1\<close> the jobs of one pool are served in the order of
  submission (\<open>single_pool_fifo\<close>), and with any number of workers every job is served once
  (\<open>pool_exactly_once\<close>). But the listener builds a new pool after every reconnection and
  leaves the old one running. In the run below, which is a run of the listener on
  \<open>reconnect_sessions\<close>, the requests \<open>r1\<close> and \<open>r2\<close> are served at the same time by two
  workers, and \<open>r2\<close>, submitted last, completes first.
\<close>

theorem reconnect_breaks_fifo:
  "filter by_listener reconnect_run = listener_actions (listener queue_env reconnect_sessions)
   \<and> run MAX_DISPATCHER_WORKERS boot reconnect_overlap =
       Some \<lparr>pools = [\<lparr>pending = [], running = [chat_request ''r1'']\<rparr>,
                      \<lparr>pending = [], running = [chat_request ''r2'']\<rparr>],
             started = [chat_request ''r1'', chat_request ''r2''],
             finished = []\<rparr>
   \<and> run MAX_DISPATCHER_WORKERS boot reconnect_run =
       Some \<lparr>pools = [idle, idle],
             started = [chat_request ''r1'', chat_request ''r2''],
             finished = [chat_request ''r2'', chat_request ''r1'']\<rparr>"
proof (intro conjI)
  have "listener queue_env reconnect_sessions =
     [Subscribe, NewExecutor, Log Info received, Submit (chat_request ''r1''),
      Log Info ''Thread future: '',
      Log Info (''Exception: '' @ str_exn connection_closed), Sleep 20,
      Subscribe, NewExecutor, Log Info received, Submit (chat_request ''r2''),
      Log Info ''Thread future: '']"
    by (simp add: reconnect_sessions_def queue_env_def stub_env_def request_text_def
        quoted_def)
  then show "filter by_listener reconnect_run
               = listener_actions (listener queue_env reconnect_sessions)"
    by (simp add: reconnect_run_def reconnect_overlap_def)
  show "run MAX_DISPATCHER_WORKERS boot reconnect_overlap =
       Some \<lparr>pools = [\<lparr>pending = [], running = [chat_request ''r1'']\<rparr>,
                      \<lparr>pending = [], running = [chat_request ''r2'']\<rparr>],
             started = [chat_request ''r1'', chat_request ''r2''],
             finished = []\<rparr>"
    by (simp add: MAX_DISPATCHER_WORKERS_def boot_def idle_def reconnect_overlap_def)
  show "run MAX_DISPATCHER_WORKERS boot reconnect_run =
       Some \<lparr>pools = [idle, idle],
             started = [chat_request ''r1'', chat_request ''r2''],
             finished = [chat_request ''r2'', chat_request ''r1'']\<rparr>"
    by (simp add: MAX_DISPATCHER_WORKERS_def boot_def idle_def reconnect_run_def
        reconnect_overlap_def)
qed

end
